theory Spec2Isabelle
  imports Main "HOL-Library.AList"
begin

section \<open>The archive library of dat-fox-helper (src/library.js)\<close>

text \<open>
  The class \<open>Library\<close> keeps three tables: the persisted store of library entries
  (\<open>node-persist\<close>, keyed by archive URL), the map \<open>archives\<close> of open archive
  objects and the map \<open>archiveUsage\<close> of timestamps. It talks to three collaborators
  that are not part of the file: name resolution (\<open>dns.resolveName\<close>), the dat node
  (\<open>node.getDat\<close>, \<open>dat.ready\<close>, \<open>dat.close\<close>, \<open>create\<close>, \<open>fork\<close>) and the
  file system. Each method is embedded as a function from the library state to a
  result and the state the method leaves behind; a rejected promise is the result
  \<open>Inl e\<close>, and the state it returns is the state at the moment of the throw.
\<close>

subsection \<open>Values\<close>

type_synonym address = string

datatype error =
    NotInLibrary      \<comment> \<open>\<open>new Error('Archive not in library')\<close>\<close>
  | ResolveError      \<comment> \<open>\<open>dns.resolveName\<close> rejected\<close>
  | EngineError       \<comment> \<open>\<open>getDat\<close>, \<open>dat.ready\<close>, \<open>create\<close> or \<open>fork\<close> rejected\<close>
  | FsError           \<comment> \<open>\<open>mkdirSync\<close> or \<open>readdir\<close> threw\<close>
  | MigrateError      \<comment> \<open>\<open>migrate\<close> rejected\<close>
  | StorageError      \<comment> \<open>\<open>storage.init\<close> rejected\<close>

text \<open>
  A property that may hold a string: it is \<open>undefined\<close>, \<open>null\<close> or a string.
\<close>

datatype jsstring = JsUndefined | JsNull | JsString string

text \<open>
  What \<open>archive.getInfo()\<close> resolves to (the properties the source reads). The title
  and the description come from the archive's own metadata and may be missing.
\<close>

record info =
  i_key :: string
  i_url :: string
  i_title :: jsstring
  i_description :: jsstring
  i_isOwner :: bool

text \<open>
  A drive, as far as the library looks at it: the URL of an archive object made from
  it, its info, the \<open>writable\<close> flag, whether \<open>dat.ready\<close> resolves, and its
  manifest (field name to value).
\<close>

record drive =
  d_url :: string
  d_info :: info
  d_writable :: bool
  d_ready :: bool
  d_manifest :: "(string \<times> string) list"

text \<open>A dat of the node and an archive object; both carry an identity.\<close>

record dat =
  dat_id :: nat
  dat_drive :: drive

record archive =
  a_id :: nat
  a_drive :: drive

definition archive_url :: "archive \<Rightarrow> string" where
  "archive_url a = d_url (a_drive a)"

definition getInfo :: "archive \<Rightarrow> info" where
  "getInfo a = d_info (a_drive a)"

text \<open>The object \<open>updateLibraryEntry\<close> stores, with the property names of the source.\<close>

record library_entry =
  dir :: string
  url :: string
  owner :: bool
  title :: jsstring
  description :: jsstring

text \<open>
  The keys of the two JavaScript \<open>Map\<close>s. A \<open>Map\<close> accepts any value as a key,
  \<open>undefined\<close> included.
\<close>

datatype mapkey = Undefined | Str string

subsection \<open>The dat node\<close>

text \<open>
  Modelled from the spec: the Distributed Archive Engine (package
  \<open>@sammacbeth/dat2-api\<close>) is not in the repository. \<open>dats\<close> is its table of open
  dats by address; \<open>getDat\<close> returns the dat of the table when there is one and opens
  one otherwise; \<open>close\<close> on a dat takes it out of the table. The model logs every
  \<open>getDat\<close> call and every \<open>close\<close>.
\<close>

record engine =
  dats :: "(address \<times> dat) list"
  closed_dats :: "nat list"
  getDat_calls :: "address list"
  next_dat :: nat

text \<open>
  The environment of one call: what the collaborators answer. \<open>None\<close> and \<open>False\<close>
  stand for a rejection or a throw. The modules \<open>./dns\<close> and \<open>./migrate\<close> are not
  among the sources, so \<open>resolveName\<close> and \<open>migrate\<close> are parameters: a name
  resolves to an address or not, and \<open>migrate\<close> may do to the node what it likes.
  \<open>openDrive\<close> is the drive the engine finds for an address it has not open yet,
  \<open>newDrive\<close> the address and drive of an archive it creates, \<open>readdir\<close> the
  listing of a directory, \<open>ensureDir\<close> whether a directory exists or can be made
  (\<open>existsSync\<close>, \<open>mkdirSync\<close>), \<open>storage_init\<close> whether the store opens.
\<close>

record world =
  resolveName :: "string \<Rightarrow> address option"
  openDrive :: "address \<Rightarrow> drive option"
  newDrive :: "(string \<times> string) list \<Rightarrow> (address \<times> drive) option"
  readdir :: "string \<Rightarrow> string list option"
  ensureDir :: "string \<Rightarrow> bool"
  migrate :: "string \<Rightarrow> engine \<Rightarrow> engine option"
  storage_init :: "string \<Rightarrow> bool"

definition getDat :: "world \<Rightarrow> address \<Rightarrow> engine \<Rightarrow> (error + dat) \<times> engine" where
  "getDat w a n =
     (let n1 = n\<lparr>getDat_calls := getDat_calls n @ [a]\<rparr> in
      case map_of (dats n1) a of
        Some d \<Rightarrow> (Inr d, n1)
      | None \<Rightarrow>
          (case openDrive w a of
             None \<Rightarrow> (Inl EngineError, n1)
           | Some dr \<Rightarrow>
               (let d = \<lparr>dat_id = next_dat n1, dat_drive = dr\<rparr> in
                (Inr d, n1\<lparr>dats := AList.update a d (dats n1),
                           next_dat := Suc (next_dat n1)\<rparr>))))"

definition dat_close :: "address \<Rightarrow> dat \<Rightarrow> engine \<Rightarrow> engine" where
  "dat_close a d n =
     n\<lparr>dats := AList.delete a (dats n), closed_dats := closed_dats n @ [dat_id d]\<rparr>"

subsection \<open>The library\<close>

text \<open>
  \<open>storage\<close> is the persisted store. \<open>pending\<close> holds the archives whose
  \<open>getInfo().then(...)\<close> of \<open>updateLibraryEntry\<close> has not run yet: the method does
  not wait for it. \<open>next_archive\<close> numbers the archive objects.
\<close>

record library =
  libraryDir :: string
  archives :: "(mapkey \<times> archive) list"
  archiveUsage :: "(mapkey \<times> nat) list"
  node :: engine
  storage :: "(string \<times> library_entry) list"
  pending :: "archive list"
  next_archive :: nat

definition DAT_PRESERVED_FIELDS_ON_FORK :: "string list" where
  "DAT_PRESERVED_FIELDS_ON_FORK = [''web_root'', ''fallback_page'', ''links'']"

definition datDir :: "library \<Rightarrow> string" where
  "datDir s = libraryDir s @ ''/dat2''"

definition empty_engine :: engine where
  "empty_engine = \<lparr>dats = [], closed_dats = [], getDat_calls = [], next_dat = 0\<rparr>"

text \<open>The constructor; \<open>st\<close> is what the store holds on disk.\<close>

definition new_library :: "string \<Rightarrow> (string \<times> library_entry) list \<Rightarrow> library" where
  "new_library d st =
     \<lparr>libraryDir = d, archives = [], archiveUsage = [], node = empty_engine,
      storage = st, pending = [], next_archive = 0\<rparr>"

definition createDatArchive :: "drive \<Rightarrow> library \<Rightarrow> archive \<times> library" where
  "createDatArchive dr s =
     (\<lparr>a_id = next_archive s, a_drive = dr\<rparr>, s\<lparr>next_archive := Suc (next_archive s)\<rparr>)"

text \<open>
  \<open>updateLibraryEntry\<close> returns at once; the write happens in the callback. The entry
  is the object literal of the source; the key is \<open>archive.url\<close>.
\<close>

definition updateLibraryEntry :: "archive \<Rightarrow> library \<Rightarrow> library" where
  "updateLibraryEntry a s = s\<lparr>pending := pending s @ [a]\<rparr>"

definition library_entry_of :: "string \<Rightarrow> archive \<Rightarrow> library_entry" where
  "library_entry_of d a =
     (let i = getInfo a in
      \<lparr>dir = d @ ''/dat1/'' @ i_key i @ ''/'',
       url = i_url i,
       owner = i_isOwner i,
       title = i_title i,
       description = i_description i\<rparr>)"

definition setItem_entry ::
  "string \<Rightarrow> (string \<times> library_entry) list \<Rightarrow> archive \<Rightarrow> (string \<times> library_entry) list" where
  "setItem_entry d st a = AList.update (archive_url a) (library_entry_of d a) st"

text \<open>All pending callbacks run, in the order they were started.\<close>

definition settle :: "library \<Rightarrow> library" where
  "settle s = s\<lparr>storage := foldl (setItem_entry (libraryDir s)) (storage s) (pending s),
                pending := []\<rparr>"

text \<open>
  \<open>await this.ready\<close> waits for the store that \<open>init\<close> opened; the methods are
  taken to be called on a store that is open.
\<close>

definition listLibrary :: "library \<Rightarrow> library_entry list" where
  "listLibrary s = map snd (storage s)"

definition close :: "world \<Rightarrow> string \<Rightarrow> library \<Rightarrow> (error + unit) \<times> library" where
  "close w u s =
     (case resolveName w u of
        None \<Rightarrow> (Inl ResolveError, s)
      | Some host \<Rightarrow>
          (let n1 = (case map_of (dats (node s)) host of
                       Some d \<Rightarrow> dat_close host d (node s)
                     | None \<Rightarrow> node s)
           in (Inr (), s\<lparr>node := n1,
                         archives := AList.delete (Str host) (archives s),
                         archiveUsage := AList.delete (Str host) (archiveUsage s)\<rparr>)))"

definition remove :: "world \<Rightarrow> string \<Rightarrow> library \<Rightarrow> (error + library_entry) \<times> library" where
  "remove w u s =
     (case map_of (storage s) u of
        None \<Rightarrow> (Inl NotInLibrary, s)
      | Some archiveInfo \<Rightarrow>
          (case close w u s of
             (Inl e, s1) \<Rightarrow> (Inl e, s1)
           | (Inr _, s1) \<Rightarrow>
               (Inr archiveInfo, s1\<lparr>storage := AList.delete u (storage s1)\<rparr>)))"

record open_archive =
  oa_host :: mapkey
  oa_url :: string
  oa_lastUsed :: "nat option"

definition getOpenArchives :: "library \<Rightarrow> open_archive list" where
  "getOpenArchives s =
     map (\<lambda>(host, a). \<lparr>oa_host = host, oa_url = archive_url a,
                        oa_lastUsed = map_of (archiveUsage s) host\<rparr>) (archives s)"

text \<open>
  \<open>ensureCacheDir\<close> resolves whatever \<open>fs.exists\<close> and \<open>fs.mkdir\<close> report, so
  \<open>createTempArchive\<close> starts at \<open>getDat\<close>.
\<close>

definition createTempArchive ::
  "world \<Rightarrow> address \<Rightarrow> library \<Rightarrow> (error + archive) \<times> library" where
  "createTempArchive w a s =
     (case getDat w a (node s) of
        (Inl e, n1) \<Rightarrow> (Inl e, s\<lparr>node := n1\<rparr>)
      | (Inr d, n1) \<Rightarrow>
          (if d_ready (dat_drive d)
           then (case createDatArchive (dat_drive d) (s\<lparr>node := n1\<rparr>) of
                   (ar, s1) \<Rightarrow> (Inr ar, s1))
           else (Inl EngineError, s\<lparr>node := n1\<rparr>)))"

text \<open>\<open>now\<close> is what \<open>Date.now()\<close> returns in this call.\<close>

definition getArchive ::
  "world \<Rightarrow> nat \<Rightarrow> string \<Rightarrow> library \<Rightarrow> (error + archive option) \<times> library" where
  "getArchive w now u s =
     (case resolveName w u of
        None \<Rightarrow> (Inl ResolveError, s)
      | Some host \<Rightarrow>
          (case (if map_of (archives s) (Str host) = None
                 then (case createTempArchive w host s of
                         (Inl e, s1) \<Rightarrow> (Inl e, s1)
                       | (Inr ar, s1) \<Rightarrow>
                           (Inr (), s1\<lparr>archives := AList.update (Str host) ar (archives s1)\<rparr>))
                 else (Inr (), s)) of
             (Inl e, s2) \<Rightarrow> (Inl e, s2)
           | (Inr _, s2) \<Rightarrow>
               (let s3 = s2\<lparr>archiveUsage := AList.update (Str host) now (archiveUsage s2)\<rparr>
                in (Inr (map_of (archives s3) (Str host)), s3))))"

text \<open>
  Modelled from the spec: \<open>create\<close> and \<open>fork\<close> of \<open>@sammacbeth/dat-archive\<close> are not
  in the repository. Both make a new dat in the node and return an archive object for
  it. \<open>create\<close> gives it the manifest of the options. \<open>fork\<close> carries the fields of the
  allow-list over from the source drive; every other field is the one of the options.
\<close>

definition new_archive ::
  "world \<Rightarrow> (string \<times> string) list \<Rightarrow> library \<Rightarrow> (error + archive) \<times> library" where
  "new_archive w m s =
     (case newDrive w m of
        None \<Rightarrow> (Inl EngineError, s)
      | Some (a, dr) \<Rightarrow>
          (let n = node s;
               d = \<lparr>dat_id = next_dat n, dat_drive = dr\<lparr>d_manifest := m\<rparr>\<rparr>;
               n1 = n\<lparr>dats := AList.update a d (dats n), next_dat := Suc (next_dat n)\<rparr>
           in (case createDatArchive (dat_drive d) (s\<lparr>node := n1\<rparr>) of
                 (ar, s1) \<Rightarrow> (Inr ar, s1))))"

definition create ::
  "world \<Rightarrow> (string \<times> string) list \<Rightarrow> library \<Rightarrow> (error + archive) \<times> library" where
  "create w opts s = new_archive w opts s"

definition fork_manifest ::
  "(string \<times> string) list \<Rightarrow> (string \<times> string) list \<Rightarrow> (string \<times> string) list" where
  "fork_manifest src opts =
     AList.restrict (set DAT_PRESERVED_FIELDS_ON_FORK) src @
     AList.restrict (- set DAT_PRESERVED_FIELDS_ON_FORK) opts"

definition fork ::
  "world \<Rightarrow> drive \<Rightarrow> (string \<times> string) list \<Rightarrow> library \<Rightarrow> (error + archive) \<times> library" where
  "fork w src opts s = new_archive w (fork_manifest (d_manifest src) opts) s"

text \<open>
  \<open>const { host } = await dns.resolveName(archive.url)\<close>: everywhere else the
  resolved value is the address itself, a string (it is the key of the two maps and
  the argument of \<open>getDat\<close>). A string has no property \<open>host\<close>, so the destructuring
  yields \<open>undefined\<close>.
\<close>

definition host_property :: "address \<Rightarrow> mapkey" where
  "host_property a = Undefined"

definition createArchive ::
  "world \<Rightarrow> (string \<times> string) list \<Rightarrow> library \<Rightarrow> (error + string) \<times> library" where
  "createArchive w opts s =
     (case create w opts s of
        (Inl e, s1) \<Rightarrow> (Inl e, s1)
      | (Inr ar, s1) \<Rightarrow>
          (case resolveName w (archive_url ar) of
             None \<Rightarrow> (Inl ResolveError, s1)
           | Some r \<Rightarrow>
               (let host = host_property r;
                    s2 = s1\<lparr>archives := AList.update host ar (archives s1)\<rparr>
                in (Inr (archive_url ar), updateLibraryEntry ar s2))))"

definition forkArchive ::
  "world \<Rightarrow> string \<Rightarrow> (string \<times> string) list \<Rightarrow> library \<Rightarrow> (error + string) \<times> library" where
  "forkArchive w srcArchiveUrl opts s =
     (case resolveName w srcArchiveUrl of
        None \<Rightarrow> (Inl ResolveError, s)
      | Some srcAddress \<Rightarrow>
          (case getDat w srcAddress (node s) of
             (Inl e, n1) \<Rightarrow> (Inl e, s\<lparr>node := n1\<rparr>)
           | (Inr srcDat, n1) \<Rightarrow>
               (case fork w (dat_drive srcDat) opts (s\<lparr>node := n1\<rparr>) of
                  (Inl e, s1) \<Rightarrow> (Inl e, s1)
                | (Inr dstArchive, s1) \<Rightarrow>
                    (Inr (archive_url dstArchive), updateLibraryEntry dstArchive s1))))"

subsection \<open>Startup\<close>

text \<open>
  The two closures of \<open>init\<close>, each with its \<open>try\<close>/\<open>catch\<close>. \<open>Promise.all\<close> runs
  them interleaved; they are run here one after the other, in the order of the list.
  \<open>if (library)\<close> is no branch: \<open>storage.values()\<close> is an array, and an array is
  truthy. With an empty store the second \<open>map\<close> runs over no entry.
\<close>

definition checkOwned :: "world \<Rightarrow> address \<Rightarrow> library \<Rightarrow> library" where
  "checkOwned w a s =
     (case getDat w a (node s) of
        (Inl e, n1) \<Rightarrow> s\<lparr>node := n1\<rparr>
      | (Inr d, n1) \<Rightarrow>
          (let s1 = s\<lparr>node := n1\<rparr> in
           if \<not> d_ready (dat_drive d) then s1
           else if d_writable (dat_drive d)
           then (case createDatArchive (dat_drive d) s1 of
                   (ar, s2) \<Rightarrow>
                     (let s3 = updateLibraryEntry ar s2
                      in s3\<lparr>archives := AList.update (Str a) ar (archives s3)\<rparr>))
           else s1\<lparr>node := dat_close a d (node s1)\<rparr>))"

definition loadLibrary :: "world \<Rightarrow> library_entry \<Rightarrow> library \<Rightarrow> library" where
  "loadLibrary w e s =
     (case resolveName w (url e) of
        None \<Rightarrow> s\<lparr>storage := AList.delete (url e) (storage s)\<rparr>
      | Some a \<Rightarrow>
          (case getDat w a (node s) of
             (Inl x, n1) \<Rightarrow> s\<lparr>node := n1, storage := AList.delete (url e) (storage s)\<rparr>
           | (Inr d, n1) \<Rightarrow>
               (if d_ready (dat_drive d)
                then (case createDatArchive (dat_drive d) (s\<lparr>node := n1\<rparr>) of
                        (ar, s2) \<Rightarrow> s2\<lparr>archives := AList.update (Str a) ar (archives s2)\<rparr>)
                else s\<lparr>node := n1, storage := AList.delete (url e) (storage s)\<rparr>)))"

definition init :: "world \<Rightarrow> library \<Rightarrow> (error + unit) \<times> library" where
  "init w s =
     (if \<not> ensureDir w (libraryDir s) then (Inl FsError, s)
      else case migrate w (libraryDir s) (node s) of
        None \<Rightarrow> (Inl MigrateError, s)
      | Some n1 \<Rightarrow>
          (let s1 = s\<lparr>node := n1\<rparr> in
           if \<not> storage_init w (libraryDir s1 @ ''/.metadata'') then (Inl StorageError, s1)
           else
             (let lib = listLibrary s1 in
              case (if length lib = 0
                    then (case readdir w (datDir s1) of
                            None \<Rightarrow> (Inl FsError, s1)
                          | Some addresses \<Rightarrow> (Inr (), fold (checkOwned w) addresses s1))
                    else (Inr (), s1)) of
                (Inl e, s2) \<Rightarrow> (Inl e, s2)
              | (Inr _, s2) \<Rightarrow> (Inr (), fold (loadLibrary w) lib s2))))"

subsection \<open>What a load finds\<close>

text \<open>
  The drive \<open>getDat\<close> yields for an address in a given node (the one of the table, or
  the one the engine opens), and whether the load of a library entry goes through:
  the name resolves, \<open>getDat\<close> resolves and so does \<open>dat.ready\<close>.
\<close>

definition getDat_drive :: "world \<Rightarrow> engine \<Rightarrow> address \<Rightarrow> drive option" where
  "getDat_drive w n a =
     (case map_of (dats n) a of Some d \<Rightarrow> Some (dat_drive d) | None \<Rightarrow> openDrive w a)"

definition loads :: "world \<Rightarrow> engine \<Rightarrow> string \<Rightarrow> bool" where
  "loads w n u =
     (case resolveName w u of
        None \<Rightarrow> False
      | Some a \<Rightarrow> (case getDat_drive w n a of None \<Rightarrow> False | Some dr \<Rightarrow> d_ready dr))"



subsection \<open>The stored object and its shape\<close>

text \<open>
  \<open>node-persist\<close> writes the entry as JSON. \<open>stored_object\<close> lists the properties
  that are written, by name: the object literal in \<open>updateLibraryEntry\<close> copies
  \<open>title\<close> and \<open>description\<close> as \<open>getInfo\<close> gave them, and JSON has no
  \<open>undefined\<close>, so a property whose value is \<open>undefined\<close> is left out; \<open>null\<close> and
  a string are written.
\<close>

datatype jsvalue = JString string | JBoolean bool | JNull

datatype jstype = TString | TBoolean | TStringOrNull

fun has_type :: "jsvalue \<Rightarrow> jstype \<Rightarrow> bool" where
  "has_type v TString = (case v of JString x \<Rightarrow> True | _ \<Rightarrow> False)"
| "has_type v TBoolean = (case v of JBoolean b \<Rightarrow> True | _ \<Rightarrow> False)"
| "has_type v TStringOrNull = (case v of JBoolean b \<Rightarrow> False | _ \<Rightarrow> True)"

definition written :: "string \<Rightarrow> jsstring \<Rightarrow> (string \<times> jsvalue) list" where
  "written f v =
     (case v of JsUndefined \<Rightarrow> [] | JsNull \<Rightarrow> [(f, JNull)] | JsString x \<Rightarrow> [(f, JString x)])"

definition stored_object :: "library_entry \<Rightarrow> (string \<times> jsvalue) list" where
  "stored_object e =
     [(''dir'', JString (dir e)),
      (''url'', JString (url e)),
      (''owner'', JBoolean (owner e))] @
     written ''title'' (title e) @
     written ''description'' (description e)"

text \<open>An object has a shape when it has exactly the properties of the shape, each of its type.\<close>

definition has_shape :: "(string \<times> jstype) list \<Rightarrow> (string \<times> jsvalue) list \<Rightarrow> bool" where
  "has_shape sh obj =
     (distinct (map fst obj) \<and> set (map fst obj) = set (map fst sh) \<and>
      list_all (\<lambda>(f, ty). case map_of obj f of None \<Rightarrow> False | Some v \<Rightarrow> has_type v ty) sh)"

text \<open>The record shape as the specification words it.\<close>

definition spec_record_shape :: "(string \<times> jstype) list" where
  "spec_record_shape =
     [(''directory'', TString), (''url'', TString), (''owner'', TBoolean),
      (''title'', TStringOrNull), (''description'', TStringOrNull)]"

subsection \<open>\<open>getArchive\<close> between its \<open>await\<close>s\<close>

text \<open>
  JavaScript runs one continuation at a time; another call can only run while this
  one waits at an \<open>await\<close>. A call of \<open>getArchive\<close> is therefore a sequence of atomic
  steps, one per stretch of code between two \<open>await\<close>s:
  the name resolves; the cache is looked up (\<open>archives.has\<close>); \<open>getDat\<close> is called;
  \<open>dat.ready\<close> resolves and the archive object is made; the archive is stored
  (\<open>archives.set\<close>), the timestamp written and the entry returned.
\<close>

datatype ga_task =
    GA_call string
  | GA_resolved address
  | GA_missed address
  | GA_opened address dat
  | GA_created address archive
  | GA_done "error + archive option"

fun ga_step :: "world \<Rightarrow> nat \<Rightarrow> ga_task \<Rightarrow> library \<Rightarrow> ga_task \<times> library" where
  "ga_step w now (GA_call u) s =
     (case resolveName w u of
        None \<Rightarrow> (GA_done (Inl ResolveError), s)
      | Some host \<Rightarrow> (GA_resolved host, s))"
| "ga_step w now (GA_resolved host) s =
     (if map_of (archives s) (Str host) = None then (GA_missed host, s)
      else (let s3 = s\<lparr>archiveUsage := AList.update (Str host) now (archiveUsage s)\<rparr>
            in (GA_done (Inr (map_of (archives s3) (Str host))), s3)))"
| "ga_step w now (GA_missed host) s =
     (case getDat w host (node s) of
        (Inl e, n1) \<Rightarrow> (GA_done (Inl e), s\<lparr>node := n1\<rparr>)
      | (Inr d, n1) \<Rightarrow> (GA_opened host d, s\<lparr>node := n1\<rparr>))"
| "ga_step w now (GA_opened host d) s =
     (if d_ready (dat_drive d)
      then (case createDatArchive (dat_drive d) s of (ar, s1) \<Rightarrow> (GA_created host ar, s1))
      else (GA_done (Inl EngineError), s))"
| "ga_step w now (GA_created host ar) s =
     (let s2 = s\<lparr>archives := AList.update (Str host) ar (archives s)\<rparr>;
          s3 = s2\<lparr>archiveUsage := AList.update (Str host) now (archiveUsage s2)\<rparr>
      in (GA_done (Inr (map_of (archives s3) (Str host))), s3))"
| "ga_step w now (GA_done r) s = (GA_done r, s)"

text \<open>
  Several calls in flight: the schedule names, step by step, the call that runs next.
\<close>

fun run_schedule ::
  "world \<Rightarrow> nat \<Rightarrow> nat list \<Rightarrow> ga_task list \<times> library \<Rightarrow> ga_task list \<times> library" where
  "run_schedule w now [] (ts, s) = (ts, s)"
| "run_schedule w now (i # sched) (ts, s) =
     (if i < length ts
      then (case ga_step w now (ts ! i) s of
              (t', s') \<Rightarrow> run_schedule w now sched (ts[i := t'], s'))
      else run_schedule w now sched (ts, s))"

text \<open>The same call, \<open>n\<close> times in a row, each after the one before has returned.\<close>

fun getArchive_times :: "world \<Rightarrow> nat \<Rightarrow> string \<Rightarrow> nat \<Rightarrow> library \<Rightarrow> library" where
  "getArchive_times w now u 0 s = s"
| "getArchive_times w now u (Suc n) s =
     getArchive_times w now u n (snd (getArchive w now u s))"

subsection \<open>Histories of calls\<close>

text \<open>
  A history is the list of calls made on a library, each with the world it ran in.
  \<open>Settle\<close> is the moment the pending callbacks of \<open>updateLibraryEntry\<close> run.
\<close>

datatype call =
    Init
  | Remove string
  | Close string
  | GetArchive string nat
  | CreateArchive "(string \<times> string) list"
  | ForkArchive string "(string \<times> string) list"
  | Settle

fun exec :: "world \<Rightarrow> call \<Rightarrow> library \<Rightarrow> library" where
  "exec w Init s = snd (init w s)"
| "exec w (Remove u) s = snd (remove w u s)"
| "exec w (Close u) s = snd (close w u s)"
| "exec w (GetArchive u now) s = snd (getArchive w now u s)"
| "exec w (CreateArchive opts) s = snd (createArchive w opts s)"
| "exec w (ForkArchive u opts) s = snd (forkArchive w u opts s)"
| "exec w Settle s = settle s"

definition run :: "(world \<times> call) list \<Rightarrow> library \<Rightarrow> library" where
  "run tr s = fold (\<lambda>(w, c). exec w c) tr s"

subsection \<open>A small world to run the methods in\<close>

text \<open>
  Address \<open>aa\<close> is an archive this user owns, \<open>bb\<close> one that is read-only, \<open>cc\<close> the
  archive that \<open>create\<close> and \<open>fork\<close> make. \<open>dat://site.example\<close> is a second name of
  \<open>aa\<close>; \<open>dat://gone.example\<close> does not resolve. The directory \<open>/lib/dat2\<close> holds
  \<open>aa\<close>, \<open>bb\<close> and \<open>zz\<close>, and \<open>zz\<close> does not open.
\<close>

definition drive_aa :: drive where
  "drive_aa =
     \<lparr>d_url = ''dat://aa'',
      d_info = \<lparr>i_key = ''aa'', i_url = ''dat://aa'', i_title = JsString ''Site'',
                i_description = JsUndefined, i_isOwner = True\<rparr>,
      d_writable = True, d_ready = True,
      d_manifest = [(''title'', ''Site''), (''web_root'', ''/public''), (''author'', ''me'')]\<rparr>"

definition drive_bb :: drive where
  "drive_bb =
     \<lparr>d_url = ''dat://bb'',
      d_info = \<lparr>i_key = ''bb'', i_url = ''dat://bb'', i_title = JsUndefined,
                i_description = JsUndefined, i_isOwner = False\<rparr>,
      d_writable = False, d_ready = True, d_manifest = []\<rparr>"

definition drive_cc :: drive where
  "drive_cc =
     \<lparr>d_url = ''dat://cc'',
      d_info = \<lparr>i_key = ''cc'', i_url = ''dat://cc'', i_title = JsString ''New'',
                i_description = JsUndefined, i_isOwner = True\<rparr>,
      d_writable = True, d_ready = True, d_manifest = []\<rparr>"

definition example_world :: world where
  "example_world =
     \<lparr>resolveName = (\<lambda>u. if u = ''dat://aa'' \<or> u = ''dat://site.example'' then Some ''aa''
                          else if u = ''dat://bb'' then Some ''bb''
                          else if u = ''dat://cc'' then Some ''cc'' else None),
      openDrive = (\<lambda>a. if a = ''aa'' then Some drive_aa
                        else if a = ''bb'' then Some drive_bb
                        else if a = ''cc'' then Some drive_cc else None),
      newDrive = (\<lambda>m. Some (''cc'', drive_cc)),
      readdir = (\<lambda>p. if p = ''/lib/dat2'' then Some [''aa'', ''bb'', ''zz''] else None),
      ensureDir = (\<lambda>d. True),
      migrate = (\<lambda>d n. Some n),
      storage_init = (\<lambda>d. True)\<rparr>"

definition entry_aa :: library_entry where
  "entry_aa = \<lparr>dir = ''/lib/dat1/aa/'', url = ''dat://aa'', owner = True,
               title = JsString ''Site'', description = JsUndefined\<rparr>"

definition entry_gone :: library_entry where
  "entry_gone = \<lparr>dir = ''/lib/dat1/dd/'', url = ''dat://gone.example'', owner = True,
                 title = JsUndefined, description = JsUndefined\<rparr>"

text \<open>A library whose store holds the two entries, before and after \<open>getArchive\<close>.\<close>

definition library_two :: library where
  "library_two = new_library ''/lib'' [(''dat://aa'', entry_aa), (''dat://gone.example'', entry_gone)]"

definition library_open :: library where
  "library_open = snd (getArchive example_world 5 ''dat://aa'' library_two)"

text \<open>A fresh library after \<open>createArchive\<close>, and the entry its callback stores.\<close>

definition library_created :: library where
  "library_created = snd (createArchive example_world [] (new_library ''/lib'' []))"

definition entry_cc :: library_entry where
  "entry_cc = \<lparr>dir = ''/lib/dat1/cc/'', url = ''dat://cc'', owner = True,
               title = JsString ''New'', description = JsUndefined\<rparr>"

text \<open>A history: startup, a \<open>createArchive\<close>, a \<open>getArchive\<close> of the read-only archive.\<close>

definition history_example :: "(world \<times> call) list" where
  "history_example =
     [(example_world, Init), (example_world, CreateArchive []),
      (example_world, GetArchive ''dat://bb'' 9)]"

section \<open>Properties\<close>

subsection \<open>Facts shared by the proofs\<close>

lemma map_of_delete_same: "map_of (AList.delete k al) k = None"
  by (simp add: AList.delete_conv')

lemma map_of_delete_Some: "map_of (AList.delete k al) x = Some v \<Longrightarrow> map_of al x = Some v"
  by (simp add: AList.delete_conv' split: if_splits)

lemma getOpenArchives_hosts: "oa_host ` set (getOpenArchives s) = fst ` set (archives s)"
  by (force simp: getOpenArchives_def image_iff split: prod.splits)

lemma getOpenArchives_lastUsed:
  "e \<in> set (getOpenArchives s) \<Longrightarrow> oa_lastUsed e = map_of (archiveUsage s) (oa_host e)"
  by (auto simp: getOpenArchives_def)

lemma getDat_Inr: "getDat w a n = (Inr d, n1) \<Longrightarrow> getDat_drive w n a = Some (dat_drive d)"
  by (auto simp: getDat_def getDat_drive_def Let_def split: option.splits)

lemma getDat_Inl: "getDat w a n = (Inl e, n1) \<Longrightarrow> getDat_drive w n a = None"
  by (auto simp: getDat_def getDat_drive_def Let_def split: option.splits)

lemma getDat_drive_getDat: "getDat w a n = (r, n1) \<Longrightarrow> getDat_drive w n1 b = getDat_drive w n b"
  by (auto simp: getDat_def getDat_drive_def Let_def AList.update_conv'
      split: option.splits if_splits)



text \<open>The small world, evaluated.\<close>

lemma resolve_example:
  "resolveName example_world ''dat://aa'' = Some ''aa''"
  "resolveName example_world ''dat://site.example'' = Some ''aa''"
  "resolveName example_world ''dat://cc'' = Some ''cc''"
  "resolveName example_world ''dat://gone.example'' = None"
  by (simp_all add: example_world_def)

lemma openDrive_example:
  "openDrive example_world ''aa'' = Some drive_aa"
  "openDrive example_world ''bb'' = Some drive_bb"
  "openDrive example_world ''zz'' = None"
  by (simp_all add: example_world_def)

lemma startup_example:
  "ensureDir example_world d"
  "migrate example_world d n = Some n"
  "storage_init example_world d"
  "readdir example_world ''/lib/dat2'' = Some [''aa'', ''bb'', ''zz'']"
  "newDrive example_world m = Some (''cc'', drive_cc)"
  by (simp_all add: example_world_def)

lemma getArchive_library_two:
  "getArchive example_world 5 ''dat://aa'' library_two =
     (Inr (Some \<lparr>a_id = 0, a_drive = drive_aa\<rparr>), library_open)"
  by (simp add: library_open_def getArchive_def createTempArchive_def getDat_def
      createDatArchive_def Let_def resolve_example openDrive_example library_two_def
      new_library_def empty_engine_def drive_aa_def)

lemma library_open_eq:
  "library_open =
     \<lparr>libraryDir = ''/lib'',
      archives = [(Str ''aa'', \<lparr>a_id = 0, a_drive = drive_aa\<rparr>)],
      archiveUsage = [(Str ''aa'', 5)],
      node = \<lparr>dats = [(''aa'', \<lparr>dat_id = 0, dat_drive = drive_aa\<rparr>)], closed_dats = [],
               getDat_calls = [''aa''], next_dat = 1\<rparr>,
      storage = [(''dat://aa'', entry_aa), (''dat://gone.example'', entry_gone)],
      pending = [], next_archive = 1\<rparr>"
  by (simp add: library_open_def getArchive_def createTempArchive_def getDat_def
      createDatArchive_def Let_def resolve_example openDrive_example library_two_def
      new_library_def empty_engine_def drive_aa_def)

subsection \<open>\<open>remove\<close>\<close>

text \<open>
  Claim C1, as the specification states it: \<open>remove(u)\<close> on a URL that is in the store
  deletes the entry and returns it. It does not when the name no longer resolves:
  \<open>remove\<close> calls \<open>close\<close> before it deletes, \<open>close\<close> starts with
  \<open>dns.resolveName\<close>, and its rejection leaves \<open>remove\<close> before \<open>removeItem\<close>.
  In the small world \<open>dat://gone.example\<close> is in the store and does not resolve.
\<close>

theorem remove_unresolvable_keeps_entry:
  "map_of (storage library_open) ''dat://gone.example'' = Some entry_gone \<and>
   fst (remove example_world ''dat://gone.example'' library_open) = Inl ResolveError \<and>
   map_of (storage (snd (remove example_world ''dat://gone.example'' library_open)))
     ''dat://gone.example'' = Some entry_gone"
  by (simp add: remove_def close_def resolve_example library_open_eq)

text \<open>
  Claim C1, amended. A URL that is not a key of the store: \<open>remove\<close> fails with
  "Archive not in library" and changes nothing. A URL that is in the store and whose
  name does not resolve: \<open>remove\<close> fails with the resolution error and changes
  nothing. A URL that is in the store and resolves to \<open>a\<close>: \<open>remove\<close> returns the
  entry, the store is the old one without the key, \<open>a\<close> is gone from \<open>archives\<close> and
  \<open>archiveUsage\<close>, and the dat the node held for \<open>a\<close>, if any, is closed.
\<close>

theorem remove_cases:
  "(map_of (storage s) u = None \<longrightarrow> remove w u s = (Inl NotInLibrary, s)) \<and>
   (map_of (storage s) u = Some e \<and> resolveName w u = None \<longrightarrow>
      remove w u s = (Inl ResolveError, s)) \<and>
   (map_of (storage s) u = Some e \<and> resolveName w u = Some a \<longrightarrow>
      fst (remove w u s) = Inr e \<and>
      storage (snd (remove w u s)) = AList.delete u (storage s) \<and>
      map_of (storage (snd (remove w u s))) u = None \<and>
      map_of (archives (snd (remove w u s))) (Str a) = None \<and>
      map_of (archiveUsage (snd (remove w u s))) (Str a) = None \<and>
      (case map_of (dats (node s)) a of
         Some d \<Rightarrow> dat_id d \<in> set (closed_dats (node (snd (remove w u s))))
       | None \<Rightarrow> node (snd (remove w u s)) = node s))"
  by (auto simp: remove_def close_def Let_def map_of_delete_same dat_close_def
      split: option.splits)

theorem remove_cases_witness:
  "map_of (storage library_open) ''dat://nowhere'' = None \<and>
   remove example_world ''dat://nowhere'' library_open = (Inl NotInLibrary, library_open) \<and>
   map_of (storage library_open) ''dat://gone.example'' = Some entry_gone \<and>
   resolveName example_world ''dat://gone.example'' = None \<and>
   remove example_world ''dat://gone.example'' library_open = (Inl ResolveError, library_open) \<and>
   map_of (storage library_open) ''dat://aa'' = Some entry_aa \<and>
   resolveName example_world ''dat://aa'' = Some ''aa'' \<and>
   fst (remove example_world ''dat://aa'' library_open) = Inr entry_aa \<and>
   storage (snd (remove example_world ''dat://aa'' library_open)) =
     [(''dat://gone.example'', entry_gone)] \<and>
   map_of (archives (snd (remove example_world ''dat://aa'' library_open))) (Str ''aa'') = None \<and>
   map_of (archiveUsage (snd (remove example_world ''dat://aa'' library_open))) (Str ''aa'') = None \<and>
   0 \<in> set (closed_dats (node (snd (remove example_world ''dat://aa'' library_open))))"
proof -
  have s: "storage library_open = [(''dat://aa'', entry_aa), (''dat://gone.example'', entry_gone)]"
    and n: "map_of (dats (node library_open)) ''aa'' = Some \<lparr>dat_id = 0, dat_drive = drive_aa\<rparr>"
    by (simp_all add: library_open_eq)
  from remove_cases [of library_open "''dat://nowhere''" example_world entry_gone "''aa''"]
    remove_cases [of library_open "''dat://gone.example''" example_world entry_gone "''aa''"]
    remove_cases [of library_open "''dat://aa''" example_world entry_aa "''aa''"]
  show ?thesis
    by (simp add: s n resolve_example)
qed

subsection \<open>\<open>close\<close>\<close>

text \<open>
  Claim C4: when the name of \<open>u\<close> resolves to \<open>a\<close>, \<open>close(u)\<close> returns, and afterwards
  \<open>a\<close> is a key of neither \<open>archives\<close> nor \<open>archiveUsage\<close>, so \<open>getOpenArchives\<close> does
  not list it, whatever the library held before. The dat the node held for \<open>a\<close>, if
  any, is closed; with none, the node is untouched. A second \<open>close(u)\<close> leaves the two
  maps as the first one left them.
\<close>

theorem close_evicts:
  assumes "resolveName w u = Some a"
  shows "fst (close w u s) = Inr () \<and>
         map_of (archives (snd (close w u s))) (Str a) = None \<and>
         map_of (archiveUsage (snd (close w u s))) (Str a) = None \<and>
         Str a \<notin> oa_host ` set (getOpenArchives (snd (close w u s))) \<and>
         (case map_of (dats (node s)) a of
            Some d \<Rightarrow> dat_id d \<in> set (closed_dats (node (snd (close w u s))))
          | None \<Rightarrow> node (snd (close w u s)) = node s) \<and>
         archives (snd (close w u (snd (close w u s)))) = archives (snd (close w u s)) \<and>
         archiveUsage (snd (close w u (snd (close w u s)))) = archiveUsage (snd (close w u s))"
  using assms
  by (auto simp: close_def Let_def getOpenArchives_hosts map_of_delete_same dat_close_def
      AList.delete_notin_dom AList.delete_idem split: option.splits)

theorem close_evicts_witness:
  "resolveName example_world ''dat://site.example'' = Some ''aa'' \<and>
   map_of (archives library_open) (Str ''aa'') = Some \<lparr>a_id = 0, a_drive = drive_aa\<rparr> \<and>
   fst (close example_world ''dat://site.example'' library_open) = Inr () \<and>
   map_of (archives (snd (close example_world ''dat://site.example'' library_open))) (Str ''aa'')
     = None \<and>
   map_of (archiveUsage (snd (close example_world ''dat://site.example'' library_open)))
     (Str ''aa'') = None \<and>
   Str ''aa'' \<notin> oa_host ` set (getOpenArchives
     (snd (close example_world ''dat://site.example'' library_open))) \<and>
   0 \<in> set (closed_dats (node (snd (close example_world ''dat://site.example'' library_open))))"
proof -
  have r: "resolveName example_world ''dat://site.example'' = Some ''aa''"
    by (rule resolve_example)
  have n: "map_of (dats (node library_open)) ''aa'' = Some \<lparr>dat_id = 0, dat_drive = drive_aa\<rparr>"
    and a: "map_of (archives library_open) (Str ''aa'') = Some \<lparr>a_id = 0, a_drive = drive_aa\<rparr>"
    by (simp_all add: library_open_eq)
  from close_evicts [OF r, of library_open] show ?thesis
    by (simp add: r n a)
qed

subsection \<open>\<open>getArchive\<close>\<close>

text \<open>
  Claim C3: a call \<open>getArchive(u)\<close> that returns, with \<open>u\<close> resolving to \<open>a\<close>, has
  written its own clock reading as the timestamp of \<open>a\<close>, whether it found the archive
  in the cache or made it. A second call whose name resolves to \<open>a\<close> again returns the
  same archive object: it makes none (\<open>next_archive\<close> and the node are unchanged) and
  leaves \<open>archives\<close> as it was; it writes its clock reading too, so with a clock that
  does not run backwards the second timestamp is at least the first.
\<close>

theorem getArchive_twice:
  assumes "getArchive w1 t1 u s = (Inr h1, s1)"
    and "resolveName w1 u = Some a" and "resolveName w2 u = Some a" and "t1 \<le> t2"
  shows "\<exists>h s2 r1 r2. getArchive w2 t2 u s1 = (Inr (Some h), s2) \<and> h1 = Some h \<and>
           next_archive s2 = next_archive s1 \<and> node s2 = node s1 \<and> archives s2 = archives s1 \<and>
           map_of (archiveUsage s1) (Str a) = Some r1 \<and> r1 = t1 \<and>
           map_of (archiveUsage s2) (Str a) = Some r2 \<and> r2 = t2 \<and> r1 \<le> r2"
  using assms
  by (auto simp: getArchive_def Let_def createTempArchive_def createDatArchive_def
      AList.update_conv' split: option.splits if_splits prod.splits sum.splits)

theorem getArchive_twice_witness:
  "getArchive example_world 5 ''dat://aa'' library_two =
     (Inr (Some \<lparr>a_id = 0, a_drive = drive_aa\<rparr>), library_open) \<and>
   resolveName example_world ''dat://aa'' = Some ''aa'' \<and> (5::nat) \<le> 8 \<and>
   fst (getArchive example_world 8 ''dat://aa'' library_open) =
     Inr (Some \<lparr>a_id = 0, a_drive = drive_aa\<rparr>) \<and>
   next_archive (snd (getArchive example_world 8 ''dat://aa'' library_open)) = 1 \<and>
   map_of (archiveUsage library_open) (Str ''aa'') = Some 5 \<and>
   map_of (archiveUsage (snd (getArchive example_world 8 ''dat://aa'' library_open))) (Str ''aa'')
     = Some 8"
proof -
  have r: "resolveName example_world ''dat://aa'' = Some ''aa''"
    by (rule resolve_example)
  have le: "(5::nat) \<le> 8" by simp
  have na: "next_archive library_open = 1" by (simp add: library_open_eq)
  from getArchive_twice [OF getArchive_library_two r r le] show ?thesis
    using getArchive_library_two r na by auto
qed


subsection \<open>Startup with a store that holds entries\<close>

lemma loadLibrary_drive: "getDat_drive w (node (loadLibrary w e s)) b = getDat_drive w (node s) b"
  by (auto simp: loadLibrary_def createDatArchive_def getDat_drive_getDat
      split: option.splits prod.splits sum.splits)

lemma loadLibrary_loads: "loads w (node (loadLibrary w e s)) u = loads w (node s) u"
  by (simp add: loads_def loadLibrary_drive cong: option.case_cong)

lemma loadLibrary_storage:
  "storage (loadLibrary w e s) =
     (if loads w (node s) (url e) then storage s else AList.delete (url e) (storage s))"
  by (auto simp: loadLibrary_def loads_def createDatArchive_def
      dest: getDat_Inr getDat_Inl split: option.splits prod.splits sum.splits)

lemma fold_loadLibrary_storage:
  "storage (fold (loadLibrary w) es s) =
     filter (\<lambda>(k, e). k \<notin> {u \<in> url ` set es. \<not> loads w (node s) u}) (storage s)"
proof (induction es arbitrary: s)
  case Nil
  then show ?case by simp
next
  case (Cons x xs)
  have "storage (fold (loadLibrary w) (x # xs) s) =
      filter (\<lambda>(k, e). k \<notin> {u \<in> url ` set xs. \<not> loads w (node s) u})
        (storage (loadLibrary w x s))"
    by (simp add: Cons.IH loadLibrary_loads)
  also have "\<dots> =
      filter (\<lambda>(k, e). k \<notin> {u \<in> url ` set (x # xs). \<not> loads w (node s) u}) (storage s)"
    by (auto simp: loadLibrary_storage AList.delete_eq intro!: filter_cong)
  finally show ?case .
qed

lemma loadLibrary_archives_mono:
  "map_of (archives s) k \<noteq> None \<Longrightarrow> map_of (archives (loadLibrary w e s)) k \<noteq> None"
  by (auto simp: loadLibrary_def createDatArchive_def AList.update_conv'
      split: option.splits prod.splits sum.splits)

lemma fold_loadLibrary_archives_mono:
  "map_of (archives s) k \<noteq> None \<Longrightarrow> map_of (archives (fold (loadLibrary w) es s)) k \<noteq> None"
  by (induction es arbitrary: s) (simp_all add: loadLibrary_archives_mono del: not_None_eq)

lemma loadLibrary_archives_new:
  "loads w (node s) (url e) \<Longrightarrow> resolveName w (url e) = Some a \<Longrightarrow>
     map_of (archives (loadLibrary w e s)) (Str a) \<noteq> None"
  by (auto simp: loadLibrary_def loads_def createDatArchive_def AList.update_conv'
      dest: getDat_Inr getDat_Inl split: option.splits prod.splits sum.splits)

lemma fold_loadLibrary_archives:
  "e \<in> set es \<Longrightarrow> loads w (node s) (url e) \<Longrightarrow> resolveName w (url e) = Some a \<Longrightarrow>
     map_of (archives (fold (loadLibrary w) es s)) (Str a) \<noteq> None"
proof (induction es arbitrary: s)
  case Nil
  then show ?case by simp
next
  case (Cons x xs)
  show ?case
  proof (cases "e = x")
    case True
    with Cons.prems show ?thesis
      by (simp add: fold_loadLibrary_archives_mono loadLibrary_archives_new)
  next
    case False
    with Cons.prems have "e \<in> set xs" by simp
    with Cons.IH [of "loadLibrary w x s"] Cons.prems show ?thesis
      by (simp add: loadLibrary_loads)
  qed
qed

text \<open>
  Claim C2: the library directory exists or is made, \<open>migrate\<close> and \<open>storage.init\<close>
  resolve, and the store holds at least one entry, each under its own \<open>url\<close>. Then
  \<open>init\<close> resolves; the store it leaves holds exactly the entries whose load went
  through (name resolved, \<open>getDat\<close> and \<open>dat.ready\<close> resolved), so every entry whose
  load failed is gone; and every entry whose load went through has an archive in the
  cache under its resolved address, whatever happened to the other entries.
\<close>

theorem init_self_prunes:
  assumes "init w s = (r, s')"
    and "ensureDir w (libraryDir s)"
    and "migrate w (libraryDir s) (node s) = Some n1"
    and "storage_init w (libraryDir s @ ''/.metadata'')"
    and "storage s \<noteq> []"
    and "\<forall>(k, e) \<in> set (storage s). url e = k"
  shows "r = Inr () \<and>
         storage s' = filter (\<lambda>(k, e). loads w n1 k) (storage s) \<and>
         (\<forall>(k, e) \<in> set (storage s). \<forall>a. loads w n1 k \<and> resolveName w k = Some a \<longrightarrow>
            map_of (archives s') (Str a) \<noteq> None)"
proof -
  let ?s1 = "s\<lparr>node := n1\<rparr>"
  let ?lib = "map snd (storage s)"
  have i: "init w s = (Inr (), fold (loadLibrary w) ?lib ?s1)"
    using assms(2-5) by (simp add: init_def listLibrary_def)
  have a: "storage (fold (loadLibrary w) ?lib ?s1) = filter (\<lambda>(k, e). loads w n1 k) (storage s)"
    unfolding fold_loadLibrary_storage using assms(6)
    by (auto intro!: filter_cong simp: image_iff) force
  have b: "map_of (archives (fold (loadLibrary w) ?lib ?s1)) (Str a) \<noteq> None"
    if "(k, e) \<in> set (storage s)" "loads w n1 k" "resolveName w k = Some a" for k e a
  proof -
    from that assms(6) have "url e = k" by auto
    moreover from that have "e \<in> set ?lib" by force
    ultimately show ?thesis
      using that fold_loadLibrary_archives [of e ?lib w ?s1 a] by simp
  qed
  from assms(1) i have "r = Inr ()" "s' = fold (loadLibrary w) ?lib ?s1" by simp_all
  with a b show ?thesis by auto
qed

theorem init_self_prunes_witness:
  "storage library_two = [(''dat://aa'', entry_aa), (''dat://gone.example'', entry_gone)] \<and>
   resolveName example_world ''dat://gone.example'' = None \<and>
   loads example_world empty_engine ''dat://aa'' \<and>
   fst (init example_world library_two) = Inr () \<and>
   storage (snd (init example_world library_two)) = [(''dat://aa'', entry_aa)] \<and>
   map_of (archives (snd (init example_world library_two))) (Str ''aa'') \<noteq> None"
proof -
  have st: "storage library_two = [(''dat://aa'', entry_aa), (''dat://gone.example'', entry_gone)]"
    and nd: "node library_two = empty_engine"
    by (simp_all add: library_two_def new_library_def)
  have ld: "loads example_world empty_engine ''dat://aa''"
    "\<not> loads example_world empty_engine ''dat://gone.example''"
    by (simp_all add: loads_def getDat_drive_def empty_engine_def resolve_example
        openDrive_example drive_aa_def)
  have h1: "init example_world library_two =
      (fst (init example_world library_two), snd (init example_world library_two))"
    by simp
  have h3: "migrate example_world (libraryDir library_two) (node library_two) = Some empty_engine"
    by (simp add: startup_example nd)
  have h5: "storage library_two \<noteq> []" by (simp add: st)
  have h6: "\<forall>(k, e) \<in> set (storage library_two). url e = k"
    by (simp add: st entry_aa_def entry_gone_def)
  from init_self_prunes [OF h1 startup_example(1) h3 startup_example(3) h5 h6]
  show ?thesis
    by (simp add: st ld resolve_example del: not_None_eq)
qed

subsection \<open>Startup with an empty store\<close>

lemma checkOwned_storage: "storage (checkOwned w a s) = storage s"
  by (auto simp: checkOwned_def createDatArchive_def updateLibraryEntry_def Let_def
      split: prod.splits sum.splits)







lemma fold_checkOwned_storage: "storage (fold (checkOwned w) as s) = storage s"
  by (induction as arbitrary: s) (simp_all add: checkOwned_storage)














lemma init_storage_empty: "storage s = [] \<Longrightarrow> storage (snd (init w s)) = []"
  by (auto simp: init_def Let_def listLibrary_def fold_checkOwned_storage split: option.splits)







subsection \<open>\<open>forkArchive\<close>\<close>

lemma fork_manifest_field:
  "map_of (fork_manifest src opts) f =
     (if f \<in> set DAT_PRESERVED_FIELDS_ON_FORK then map_of src f else map_of opts f)"
  by (simp add: fork_manifest_def map_add_def AList.restr_conv' restrict_map_def
      split: option.splits)

text \<open>
  Claim C5, against the model of \<open>fork\<close> taken from the specification (the source
  hands the source drive and the options to \<open>fork\<close> of \<open>@sammacbeth/dat-archive\<close>
  and does not use \<open>DAT_PRESERVED_FIELDS_ON_FORK\<close> itself): when \<open>forkArchive\<close>
  resolves, the archive it registers has, for each of \<open>web_root\<close>, \<open>fallback_page\<close>
  and \<open>links\<close>, the value of the drive that the source URL resolves to, whether or
  not the options name the field; every other field of its manifest is the one of
  the options, so nothing else comes from the source.
\<close>

theorem forkArchive_fields:
  assumes "forkArchive w u opts s = (Inr dst, s')"
    and "resolveName w u = Some a" and "getDat_drive w (node s) a = Some src"
  shows "\<exists>h. pending s' = pending s @ [h] \<and> archive_url h = dst \<and>
           (\<forall>f. map_of (d_manifest (a_drive h)) f =
              (if f \<in> set DAT_PRESERVED_FIELDS_ON_FORK then map_of (d_manifest src) f
               else map_of opts f))"
  using assms
  by (auto simp: forkArchive_def fork_def new_archive_def createDatArchive_def Let_def
      updateLibraryEntry_def fork_manifest_field getDat_def getDat_drive_def
      split: option.splits prod.splits sum.splits)

lemma forkArchive_example:
  "forkArchive example_world ''dat://aa'' [(''title'', ''Copy''), (''web_root'', ''/other'')]
     (new_library ''/lib'' []) =
   (Inr ''dat://cc'',
    \<lparr>libraryDir = ''/lib'', archives = [], archiveUsage = [],
     node = \<lparr>dats = [(''aa'', \<lparr>dat_id = 0, dat_drive = drive_aa\<rparr>),
                      (''cc'', \<lparr>dat_id = 1, dat_drive = drive_cc
                         \<lparr>d_manifest := [(''web_root'', ''/public''), (''title'', ''Copy'')]\<rparr>\<rparr>)],
              closed_dats = [], getDat_calls = [''aa''], next_dat = 2\<rparr>,
     storage = [],
     pending = [\<lparr>a_id = 0, a_drive = drive_cc
                   \<lparr>d_manifest := [(''web_root'', ''/public''), (''title'', ''Copy'')]\<rparr>\<rparr>],
     next_archive = 1\<rparr>)"
  by (simp add: forkArchive_def fork_def new_archive_def createDatArchive_def Let_def
      updateLibraryEntry_def getDat_def resolve_example openDrive_example startup_example
      new_library_def empty_engine_def fork_manifest_def DAT_PRESERVED_FIELDS_ON_FORK_def
      AList.restrict_eq drive_aa_def archive_url_def drive_cc_def)

theorem forkArchive_fields_witness:
  "resolveName example_world ''dat://aa'' = Some ''aa'' \<and>
   getDat_drive example_world (node (new_library ''/lib'' [])) ''aa'' = Some drive_aa \<and>
   fst (forkArchive example_world ''dat://aa'' [(''title'', ''Copy''), (''web_root'', ''/other'')]
     (new_library ''/lib'' [])) = Inr ''dat://cc'' \<and>
   map (\<lambda>h. map (map_of (d_manifest (a_drive h))) [''web_root'', ''title'', ''author''])
     (pending (snd (forkArchive example_world ''dat://aa''
        [(''title'', ''Copy''), (''web_root'', ''/other'')] (new_library ''/lib'' [])))) =
     [[Some ''/public'', Some ''Copy'', None]]"
proof -
  let ?opts = "[(''title'', ''Copy''), (''web_root'', ''/other'')]"
  let ?s = "new_library ''/lib'' []"
  have r: "resolveName example_world ''dat://aa'' = Some ''aa''" by (rule resolve_example)
  have g: "getDat_drive example_world (node ?s) ''aa'' = Some drive_aa"
    by (simp add: getDat_drive_def new_library_def empty_engine_def openDrive_example)
  have p: "forkArchive example_world ''dat://aa'' ?opts ?s =
      (Inr ''dat://cc'', snd (forkArchive example_world ''dat://aa'' ?opts ?s))"
    by (simp add: forkArchive_example)
  from forkArchive_fields [OF p r g] obtain h where
    h: "pending (snd (forkArchive example_world ''dat://aa'' ?opts ?s)) = pending ?s @ [h]"
    and f: "\<And>f. map_of (d_manifest (a_drive h)) f =
      (if f \<in> set DAT_PRESERVED_FIELDS_ON_FORK then map_of (d_manifest drive_aa) f
       else map_of ?opts f)"
    by blast
  have "map (map_of (d_manifest (a_drive h))) [''web_root'', ''title'', ''author''] =
      [Some ''/public'', Some ''Copy'', None]"
    by (simp add: f DAT_PRESERVED_FIELDS_ON_FORK_def drive_aa_def)
  moreover have "fst (forkArchive example_world ''dat://aa'' ?opts ?s) = Inr ''dat://cc''"
    by (simp add: forkArchive_example)
  moreover have "pending ?s = []" by (simp add: new_library_def)
  ultimately show ?thesis
    using h r g by simp
qed

subsection \<open>The stored entry\<close>

lemma set_update_subset: "set (AList.update k v al) \<subseteq> insert (k, v) (set al)"
  by (induction al) auto

lemma foldl_setItem_set:
  "(k, e) \<in> set (foldl (setItem_entry d) st ps) \<Longrightarrow>
     (k, e) \<in> set st \<or> (\<exists>a \<in> set ps. k = archive_url a \<and> e = library_entry_of d a)"
proof (induction ps arbitrary: st)
  case Nil
  then show ?case by simp
next
  case (Cons p ps)
  from Cons.prems have "(k, e) \<in> set (foldl (setItem_entry d) (setItem_entry d st p) ps)"
    by simp
  from Cons.IH [OF this] show ?case
    using set_update_subset [of "archive_url p" "library_entry_of d p" st]
    by (auto simp: setItem_entry_def)
qed

lemma library_created_eq:
  "library_created =
     \<lparr>libraryDir = ''/lib'', archives = [(Undefined, \<lparr>a_id = 0, a_drive = drive_cc\<rparr>)],
      archiveUsage = [],
      node = \<lparr>dats = [(''cc'', \<lparr>dat_id = 0, dat_drive = drive_cc\<rparr>)], closed_dats = [],
               getDat_calls = [], next_dat = 1\<rparr>,
      storage = [], pending = [\<lparr>a_id = 0, a_drive = drive_cc\<rparr>], next_archive = 1\<rparr>"
  by (simp add: library_created_def createArchive_def create_def new_archive_def
      createDatArchive_def Let_def updateLibraryEntry_def host_property_def archive_url_def
      startup_example resolve_example new_library_def empty_engine_def drive_cc_def)

lemma settle_library_created:
  "storage (settle library_created) = [(''dat://cc'', entry_cc)]"
  by (simp add: library_created_eq settle_def setItem_entry_def library_entry_of_def
      getInfo_def archive_url_def drive_cc_def entry_cc_def)

text \<open>
  Claim C7, as the specification states it: the stored record has exactly the
  properties \<open>directory\<close>, \<open>url\<close>, \<open>owner\<close>, \<open>title\<close> and \<open>description\<close>, the last
  two a string or null. The entry that \<open>createArchive\<close> stores in the small world has
  no property \<open>directory\<close>: the object literal names it \<open>dir\<close>. It has no property
  \<open>description\<close> either: \<open>getInfo\<close> reports none, the literal copies \<open>undefined\<close>,
  and the store writes no such property.
\<close>

theorem stored_entry_has_no_directory:
  "map_of (storage (settle library_created)) ''dat://cc'' = Some entry_cc \<and>
   i_description (getInfo \<lparr>a_id = 0, a_drive = drive_cc\<rparr>) = JsUndefined \<and>
   \<not> has_shape spec_record_shape (stored_object entry_cc) \<and>
   map_of (stored_object entry_cc) ''directory'' = None \<and>
   map_of (stored_object entry_cc) ''dir'' = Some (JString ''/lib/dat1/cc/'') \<and>
   map_of (stored_object entry_cc) ''description'' = None \<and>
   map fst (stored_object entry_cc) = [''dir'', ''url'', ''owner'', ''title'']"
  by (simp add: settle_library_created has_shape_def spec_record_shape_def stored_object_def
      written_def entry_cc_def getInfo_def drive_cc_def)

text \<open>
  Claim C7, amended: every record that the callbacks of \<open>updateLibraryEntry\<close> put
  into the store is stored under the \<open>url\<close> of the archive object and is written
  with the properties \<open>dir\<close> (the string made of the library directory, \<open>/dat1/\<close>, the
  key that \<open>getInfo\<close> reports and a slash), \<open>url\<close> (the string \<open>getInfo\<close> reports) and
  \<open>owner\<close> (the boolean \<open>isOwner\<close> of \<open>getInfo\<close>), followed by \<open>title\<close> and
  \<open>description\<close> as \<open>getInfo\<close> reports them: a string or null is written as it is,
  and a property that \<open>getInfo\<close> leaves undefined is not written. There is no other
  property.
\<close>

theorem stored_entry_properties:
  assumes "(k, e) \<in> set (storage (settle s))" and "(k, e) \<notin> set (storage s)"
  shows "\<exists>a \<in> set (pending s). k = archive_url a \<and>
           stored_object e =
             [(''dir'', JString (libraryDir s @ ''/dat1/'' @ i_key (getInfo a) @ ''/'')),
              (''url'', JString (i_url (getInfo a))),
              (''owner'', JBoolean (i_isOwner (getInfo a)))] @
             (case i_title (getInfo a) of
                JsUndefined \<Rightarrow> []
              | JsNull \<Rightarrow> [(''title'', JNull)]
              | JsString x \<Rightarrow> [(''title'', JString x)]) @
             (case i_description (getInfo a) of
                JsUndefined \<Rightarrow> []
              | JsNull \<Rightarrow> [(''description'', JNull)]
              | JsString x \<Rightarrow> [(''description'', JString x)])"
proof -
  from assms foldl_setItem_set [of k e "libraryDir s" "storage s" "pending s"]
  obtain a where a: "a \<in> set (pending s)" "k = archive_url a"
    "e = library_entry_of (libraryDir s) a"
    by (auto simp: settle_def)
  from a(3) have "stored_object e =
      [(''dir'', JString (libraryDir s @ ''/dat1/'' @ i_key (getInfo a) @ ''/'')),
       (''url'', JString (i_url (getInfo a))),
       (''owner'', JBoolean (i_isOwner (getInfo a)))] @
      (case i_title (getInfo a) of
         JsUndefined \<Rightarrow> []
       | JsNull \<Rightarrow> [(''title'', JNull)]
       | JsString x \<Rightarrow> [(''title'', JString x)]) @
      (case i_description (getInfo a) of
         JsUndefined \<Rightarrow> []
       | JsNull \<Rightarrow> [(''description'', JNull)]
       | JsString x \<Rightarrow> [(''description'', JString x)])"
    by (simp add: stored_object_def written_def library_entry_of_def Let_def)
  with a(1,2) show ?thesis by blast
qed

theorem stored_entry_properties_witness:
  "(''dat://cc'', entry_cc) \<in> set (storage (settle library_created)) \<and>
   (''dat://cc'', entry_cc) \<notin> set (storage library_created) \<and>
   pending library_created = [\<lparr>a_id = 0, a_drive = drive_cc\<rparr>] \<and>
   archive_url \<lparr>a_id = 0, a_drive = drive_cc\<rparr> = ''dat://cc'' \<and>
   i_title (getInfo \<lparr>a_id = 0, a_drive = drive_cc\<rparr>) = JsString ''New'' \<and>
   i_description (getInfo \<lparr>a_id = 0, a_drive = drive_cc\<rparr>) = JsUndefined \<and>
   stored_object entry_cc =
     [(''dir'', JString ''/lib/dat1/cc/''), (''url'', JString ''dat://cc''),
      (''owner'', JBoolean True), (''title'', JString ''New'')]"
proof -
  let ?a = "\<lparr>a_id = 0, a_drive = drive_cc\<rparr>"
  have a: "(''dat://cc'', entry_cc) \<in> set (storage (settle library_created))"
    by (simp add: settle_library_created)
  have b: "(''dat://cc'', entry_cc) \<notin> set (storage library_created)"
    by (simp add: library_created_eq)
  have p: "pending library_created = [?a]" "libraryDir library_created = ''/lib''"
    by (simp_all add: library_created_eq)
  have i: "getInfo ?a = \<lparr>i_key = ''cc'', i_url = ''dat://cc'', i_title = JsString ''New'',
      i_description = JsUndefined, i_isOwner = True\<rparr>"
    by (simp add: getInfo_def drive_cc_def)
  have u: "archive_url ?a = ''dat://cc''"
    by (simp add: archive_url_def drive_cc_def)
  from stored_entry_properties [OF a b]
  have "stored_object entry_cc =
     [(''dir'', JString ''/lib/dat1/cc/''), (''url'', JString ''dat://cc''),
      (''owner'', JBoolean True), (''title'', JString ''New'')]"
    by (simp add: p i)
  with a b p(1) u i show ?thesis by simp
qed


subsection \<open>The key \<open>createArchive\<close> uses\<close>

lemma createArchive_key:
  "createArchive w opts s = (Inr u, s') \<Longrightarrow>
     \<exists>h. archives s' = AList.update Undefined h (archives s) \<and> archive_url h = u"
  by (auto simp: createArchive_def create_def new_archive_def createDatArchive_def Let_def
      updateLibraryEntry_def host_property_def split: option.splits prod.splits sum.splits)

text \<open>
  Claim C8: every insertion into the cache is keyed by the resolved address, so
  there is one archive object per address. \<open>createArchive\<close> is not: it reads the
  property \<open>host\<close> of the resolved address and stores the new archive under
  \<open>undefined\<close>. In the small world the created archive \<open>dat://cc\<close> resolves to \<open>cc\<close>,
  the cache has no entry for \<open>cc\<close> afterwards, and the next \<open>getArchive\<close> of
  \<open>dat://cc\<close> makes a second archive object for the same drive.
\<close>

theorem createArchive_caches_under_undefined:
  "fst (createArchive example_world [] (new_library ''/lib'' [])) = Inr ''dat://cc'' \<and>
   resolveName example_world ''dat://cc'' = Some ''cc'' \<and>
   archives library_created = [(Undefined, \<lparr>a_id = 0, a_drive = drive_cc\<rparr>)] \<and>
   map_of (archives library_created) (Str ''cc'') = None \<and>
   fst (getArchive example_world 7 ''dat://cc'' library_created) =
     Inr (Some \<lparr>a_id = 1, a_drive = drive_cc\<rparr>) \<and>
   archives (snd (getArchive example_world 7 ''dat://cc'' library_created)) =
     [(Undefined, \<lparr>a_id = 0, a_drive = drive_cc\<rparr>), (Str ''cc'', \<lparr>a_id = 1, a_drive = drive_cc\<rparr>)]"
  by (simp add: library_created_eq getArchive_def createTempArchive_def getDat_def
      createDatArchive_def Let_def resolve_example createArchive_def create_def new_archive_def
      updateLibraryEntry_def host_property_def archive_url_def startup_example
      new_library_def empty_engine_def drive_cc_def)

subsection \<open>Calls of \<open>getArchive\<close> in flight together\<close>

text \<open>A call that runs alone goes through its steps and is \<open>getArchive\<close>.\<close>

lemma ga_steps_alone:
  "run_schedule w now [0, 0, 0, 0, 0] ([GA_call u], s) =
     ([GA_done (fst (getArchive w now u s))], snd (getArchive w now u s))"
  by (auto simp: getArchive_def createTempArchive_def createDatArchive_def Let_def
      split: option.splits prod.splits sum.splits)

lemma getArchive_miss:
  assumes "resolveName w u = Some a" "map_of (archives s) (Str a) = None"
    "getDat_drive w (node s) a = Some dr" "d_ready dr"
  shows "map_of (archives (snd (getArchive w now u s))) (Str a) \<noteq> None \<and>
         getDat_calls (node (snd (getArchive w now u s))) = getDat_calls (node s) @ [a]"
  using assms
  by (auto simp: getArchive_def createTempArchive_def getDat_def getDat_drive_def
      createDatArchive_def Let_def AList.update_conv' split: option.splits)

lemma getArchive_hit:
  assumes "resolveName w u = Some a" "map_of (archives s) (Str a) \<noteq> None"
  shows "archives (snd (getArchive w now u s)) = archives s \<and>
         node (snd (getArchive w now u s)) = node s"
  using assms by (auto simp: getArchive_def Let_def)

lemma getArchive_times_hit:
  "resolveName w u = Some a \<Longrightarrow> map_of (archives s) (Str a) \<noteq> None \<Longrightarrow>
     node (getArchive_times w now u n s) = node s"
proof (induction n arbitrary: s)
  case 0
  show ?case by simp
next
  case (Suc n)
  from getArchive_hit [OF Suc.prems, of now] Suc.prems
  have "map_of (archives (snd (getArchive w now u s))) (Str a) \<noteq> None"
    "node (snd (getArchive w now u s)) = node s" by simp_all
  with Suc.IH [OF Suc.prems(1), of "snd (getArchive w now u s)"] show ?case by simp
qed

text \<open>
  Claim C9, as the specification states it: two calls of \<open>getArchive\<close> for a URL not
  seen before, in flight together, make one \<open>getDat\<close> call. They make two: with the
  calls taking turns, both look the cache up before either has stored its archive,
  both call \<open>getDat\<close>, and each returns an archive object of its own.
\<close>

theorem concurrent_getArchive_opens_twice:
  "getDat_calls (node (snd (run_schedule example_world 5 [0, 1, 0, 1, 0, 1, 0, 1, 0, 1]
      ([GA_call ''dat://aa'', GA_call ''dat://aa''], new_library ''/lib'' [])))) =
     [''aa'', ''aa''] \<and>
   fst (run_schedule example_world 5 [0, 1, 0, 1, 0, 1, 0, 1, 0, 1]
      ([GA_call ''dat://aa'', GA_call ''dat://aa''], new_library ''/lib'' [])) =
     [GA_done (Inr (Some \<lparr>a_id = 0, a_drive = drive_aa\<rparr>)),
      GA_done (Inr (Some \<lparr>a_id = 1, a_drive = drive_aa\<rparr>))]"
  by (simp add: getDat_def createDatArchive_def Let_def resolve_example openDrive_example
      new_library_def empty_engine_def drive_aa_def)

text \<open>
  Claim C9, amended to calls that follow one another: \<open>u\<close> resolves to \<open>a\<close>, \<open>a\<close> is
  not in the cache, and its dat opens and becomes ready. Then \<open>n \<ge> 1\<close> calls of
  \<open>getArchive(u)\<close>, each made after the one before has returned, make exactly one
  \<open>getDat\<close> call, the one of the first.
\<close>

theorem getArchive_times_one_open:
  assumes "resolveName w u = Some a" and "map_of (archives s) (Str a) = None"
    and "getDat_drive w (node s) a = Some dr" and "d_ready dr" and "0 < n"
  shows "getDat_calls (node (getArchive_times w now u n s)) = getDat_calls (node s) @ [a]"
proof -
  from \<open>0 < n\<close> obtain m where n: "n = Suc m" by (cases n) auto
  from getArchive_miss [OF assms(1-4), of now]
  have "map_of (archives (snd (getArchive w now u s))) (Str a) \<noteq> None"
    and c: "getDat_calls (node (snd (getArchive w now u s))) = getDat_calls (node s) @ [a]"
    by simp_all
  from getArchive_times_hit [OF assms(1) this(1), of now m] c show ?thesis
    by (simp add: n)
qed

theorem getArchive_times_one_open_witness:
  "resolveName example_world ''dat://aa'' = Some ''aa'' \<and>
   map_of (archives library_two) (Str ''aa'') = None \<and>
   getDat_drive example_world (node library_two) ''aa'' = Some drive_aa \<and>
   d_ready drive_aa \<and> (0::nat) < 3 \<and>
   getDat_calls (node (getArchive_times example_world 5 ''dat://aa'' 3 library_two)) = [''aa'']"
proof -
  have r: "resolveName example_world ''dat://aa'' = Some ''aa''" by (rule resolve_example)
  have m: "map_of (archives library_two) (Str ''aa'') = None"
    by (simp add: library_two_def new_library_def)
  have g: "getDat_drive example_world (node library_two) ''aa'' = Some drive_aa"
    by (simp add: getDat_drive_def library_two_def new_library_def empty_engine_def
        openDrive_example)
  have d: "d_ready drive_aa" by (simp add: drive_aa_def)
  have n: "(0::nat) < 3" by simp
  have c: "getDat_calls (node library_two) = []"
    by (simp add: library_two_def new_library_def empty_engine_def)
  from getArchive_times_one_open [OF r m g d n, of 5] r m g d n c show ?thesis
    by simp
qed

subsection \<open>Who writes \<open>archiveUsage\<close>\<close>

lemma checkOwned_usage: "archiveUsage (checkOwned w a s) = archiveUsage s"
  by (auto simp: checkOwned_def createDatArchive_def updateLibraryEntry_def Let_def
      split: prod.splits sum.splits)

lemma loadLibrary_usage: "archiveUsage (loadLibrary w e s) = archiveUsage s"
  by (auto simp: loadLibrary_def createDatArchive_def split: option.splits prod.splits sum.splits)

lemma fold_checkOwned_usage: "archiveUsage (fold (checkOwned w) as s) = archiveUsage s"
  by (induction as arbitrary: s) (simp_all add: checkOwned_usage)

lemma fold_loadLibrary_usage: "archiveUsage (fold (loadLibrary w) es s) = archiveUsage s"
  by (induction es arbitrary: s) (simp_all add: loadLibrary_usage)

lemma init_usage: "archiveUsage (snd (init w s)) = archiveUsage s"
  by (auto simp: init_def Let_def fold_checkOwned_usage fold_loadLibrary_usage
      split: option.splits)

lemma close_usage:
  "map_of (archiveUsage (snd (close w u s))) k = Some t \<Longrightarrow> map_of (archiveUsage s) k = Some t"
  by (auto simp: close_def Let_def dest: map_of_delete_Some split: option.splits)

lemma remove_usage:
  "map_of (archiveUsage (snd (remove w u s))) k = Some t \<Longrightarrow> map_of (archiveUsage s) k = Some t"
  using close_usage [of w u s k t]
  by (auto simp: remove_def split: option.splits prod.splits sum.splits)

lemma createArchive_usage: "archiveUsage (snd (createArchive w opts s)) = archiveUsage s"
  by (auto simp: createArchive_def create_def new_archive_def createDatArchive_def Let_def
      updateLibraryEntry_def split: option.splits prod.splits sum.splits)

lemma forkArchive_usage: "archiveUsage (snd (forkArchive w u opts s)) = archiveUsage s"
  by (auto simp: forkArchive_def fork_def new_archive_def createDatArchive_def Let_def
      updateLibraryEntry_def split: option.splits prod.splits sum.splits)

lemma settle_usage: "archiveUsage (settle s) = archiveUsage s"
  by (simp add: settle_def)

lemma getArchive_usage:
  "map_of (archiveUsage (snd (getArchive w now u s))) k = Some t \<Longrightarrow>
     map_of (archiveUsage s) k = Some t \<or> (\<exists>a. resolveName w u = Some a \<and> k = Str a \<and> t = now)"
  by (auto simp: getArchive_def createTempArchive_def createDatArchive_def Let_def
      AList.update_conv' split: option.splits prod.splits sum.splits if_splits)

text \<open>A timestamp that a call leaves was there before, or the call is a \<open>getArchive\<close>.\<close>

lemma exec_usage:
  "map_of (archiveUsage (exec w c s)) k = Some t \<Longrightarrow>
     map_of (archiveUsage s) k = Some t \<or>
     (\<exists>u a. c = GetArchive u t \<and> resolveName w u = Some a \<and> k = Str a)"
proof (cases c)
  case (GetArchive u now)
  then show "map_of (archiveUsage (exec w c s)) k = Some t \<Longrightarrow> ?thesis"
    using getArchive_usage [of w now u s k t] by auto
qed (auto simp: init_usage createArchive_usage forkArchive_usage settle_usage
    dest: close_usage remove_usage)

lemma run_snoc: "run (tr @ [(w, c)]) s = exec w c (run tr s)"
  by (simp add: run_def)

lemma run_usage:
  "map_of (archiveUsage (run tr s)) k = Some t \<Longrightarrow>
     map_of (archiveUsage s) k = Some t \<or>
     (\<exists>w u a. (w, GetArchive u t) \<in> set tr \<and> resolveName w u = Some a \<and> k = Str a)"
proof (induction tr rule: rev_induct)
  case Nil
  then show ?case by (simp add: run_def)
next
  case (snoc x tr)
  obtain w c where x: "x = (w, c)" by (cases x)
  from snoc.prems exec_usage [of w c "run tr s" k t]
  consider "map_of (archiveUsage (run tr s)) k = Some t"
    | u a where "c = GetArchive u t" "resolveName w u = Some a" "k = Str a"
    by (auto simp: x run_snoc)
  then show ?case
  proof cases
    case 1
    from snoc.IH [OF this] show ?thesis by auto
  next
    case 2
    then show ?thesis by (auto simp: x)
  qed
qed

text \<open>
  Claim C10: take any history of calls on a library fresh from its constructor
  (startup, \<open>getArchive\<close>, \<open>createArchive\<close>, \<open>forkArchive\<close>, \<open>close\<close>, \<open>remove\<close>, the
  pending callbacks, in any order and any number) and an entry that
  \<open>getOpenArchives\<close> then lists. If no \<open>getArchive\<close> call of the history resolved to
  the key of the entry, its \<open>lastUsed\<close> is \<open>undefined\<close>.
\<close>

theorem lastUsed_only_by_getArchive:
  assumes "e \<in> set (getOpenArchives (run tr (new_library d st)))"
    and "\<And>w u t a. (w, GetArchive u t) \<in> set tr \<Longrightarrow> resolveName w u = Some a \<Longrightarrow> oa_host e \<noteq> Str a"
  shows "oa_lastUsed e = None"
proof (rule ccontr)
  assume "oa_lastUsed e \<noteq> None"
  then obtain t where "oa_lastUsed e = Some t" by auto
  with assms(1) have "map_of (archiveUsage (run tr (new_library d st))) (oa_host e) = Some t"
    by (simp add: getOpenArchives_lastUsed)
  from run_usage [OF this] assms(2) show False
    by (auto simp: new_library_def)
qed

lemma history_example_hosts:
  "map oa_host (getOpenArchives (run history_example library_two)) =
     [Str ''aa'', Undefined, Str ''bb'']"
  by (simp add: history_example_def run_def library_two_def new_library_def empty_engine_def
      init_def listLibrary_def loadLibrary_def getDat_def createDatArchive_def Let_def
      startup_example resolve_example openDrive_example entry_aa_def entry_gone_def
      createArchive_def create_def new_archive_def updateLibraryEntry_def host_property_def
      archive_url_def drive_aa_def drive_bb_def drive_cc_def getOpenArchives_def
      getArchive_def createTempArchive_def example_world_def)

theorem lastUsed_only_by_getArchive_witness:
  "map oa_host (getOpenArchives (run history_example library_two)) =
     [Str ''aa'', Undefined, Str ''bb''] \<and>
   set (map snd history_example) = {Init, CreateArchive [], GetArchive ''dat://bb'' 9} \<and>
   resolveName example_world ''dat://bb'' = Some ''bb'' \<and>
   oa_lastUsed (getOpenArchives (run history_example library_two) ! 0) = None \<and>
   oa_lastUsed (getOpenArchives (run history_example library_two) ! 1) = None"
proof -
  let ?xs = "getOpenArchives (run history_example library_two)"
  have len: "length ?xs = 3"
    using arg_cong [OF history_example_hosts, of length] by simp
  have hosts: "oa_host (?xs ! 0) = Str ''aa''" "oa_host (?xs ! 1) = Undefined"
    using arg_cong [OF history_example_hosts, of "\<lambda>l. l ! 0"]
      arg_cong [OF history_example_hosts, of "\<lambda>l. l ! 1"] len
    by simp_all
  have rb: "resolveName example_world ''dat://bb'' = Some ''bb''"
    by (simp add: example_world_def)
  have none: "oa_lastUsed e = None"
    if "e \<in> set ?xs" "oa_host e \<noteq> Str ''bb''" for e
  proof (rule lastUsed_only_by_getArchive)
    from that(1) show "e \<in> set (getOpenArchives (run history_example
        (new_library ''/lib'' [(''dat://aa'', entry_aa), (''dat://gone.example'', entry_gone)])))"
      by (simp add: library_two_def)
  next
    fix w u t a
    assume "(w, GetArchive u t) \<in> set history_example" "resolveName w u = Some a"
    then have "a = ''bb''" by (auto simp: history_example_def rb)
    with that(2) show "oa_host e \<noteq> Str a" by simp
  qed
  have "?xs ! 0 \<in> set ?xs" "?xs ! 1 \<in> set ?xs" using len by simp_all
  with none hosts have "oa_lastUsed (?xs ! 0) = None" "oa_lastUsed (?xs ! 1) = None"
    by simp_all
  moreover have "set (map snd history_example) = {Init, CreateArchive [], GetArchive ''dat://bb'' 9}"
    by (simp add: history_example_def)
  ultimately show ?thesis
    using history_example_hosts rb by simp
qed

end
